theory Spec2Isabelle
  imports
    Main
    "HOL-Library.AList"
    "HOL-Library.Char_ord"
    "HOL-Library.List_Lexorder"
    "HOL-Library.Multiset"
begin

section \<open>Python values used by main.py\<close>

text \<open>
  Exceptions are values. A function of the source that can raise returns \<open>exn + 'a\<close>
  when it works on local data only, and a pair \<open>('s \<times> exn option)\<close> when it mutates an
  object that outlives the call: the mutations made before the raise stay visible.
\<close>

datatype exn =
    KeyError | TypeError | ValueError | OverflowError
  | ParseError | ExpatError | FileNotFoundError | DuplicateKey

text \<open>
  A \<open>datetime.timedelta\<close> is an exact number of microseconds. Its constructor and its
  addition raise OverflowError outside \<open>-999999999 \<le> days \<le> 999999999\<close>.
\<close>

type_synonym timedelta = int

definition td_min :: timedelta where
  "td_min = - 999999999 * 86400000000"

definition td_max :: timedelta where
  "td_max = 1000000000 * 86400000000 - 1"

definition td_add :: "timedelta \<Rightarrow> timedelta \<Rightarrow> exn + timedelta" where
  "td_add a b =
     (let c = a + b in if td_min \<le> c \<and> c \<le> td_max then Inr c else Inl OverflowError)"

text \<open>\<open>sum(values, start)\<close>: a left fold of \<open>+\<close>.\<close>

fun td_sum :: "timedelta \<Rightarrow> timedelta list \<Rightarrow> exn + timedelta" where
  "td_sum acc [] = Inr acc"
| "td_sum acc (v # vs) =
     (case td_add acc v of Inl e \<Rightarrow> Inl e | Inr acc' \<Rightarrow> td_sum acc' vs)"

text \<open>
  A dict keeps its keys in insertion order: an association list. \<open>d[k] = v\<close> is
  \<open>AList.update k v d\<close> (the value is replaced in place, a new key goes to the end),
  \<open>d.get(k, dflt)\<close> reads \<open>map_of d k\<close>.
\<close>

type_synonym titles = "(string \<times> timedelta) list"
type_synonym time_record = "(string \<times> titles) list"

text \<open>
  \<open>sorted(xs, key=key, reverse=reverse)\<close>: a stable sort; with \<open>reverse\<close> the elements
  with equal keys keep their original order too. Strings are compared character by
  character, by character code, as Python compares them by code point.
\<close>

definition sorted_py :: "('a \<Rightarrow> 'k::linorder) \<Rightarrow> bool \<Rightarrow> 'a list \<Rightarrow> 'a list" where
  "sorted_py key reverse xs =
     (if reverse then rev (sort_key key (rev xs)) else sort_key key xs)"

text \<open>An \<open>xml.etree.ElementTree.Element\<close>; \<open>etext\<close> is its attribute \<open>text\<close>.\<close>

datatype element =
  Element (tag: string) (attrib: "(string \<times> string) list") (etext: "string option")
    (children: "element list")

definition findall :: "string \<Rightarrow> element \<Rightarrow> element list" where
  "findall t e = filter (\<lambda>c. tag c = t) (children e)"

text \<open>
  The library functions whose results the program uses and whose code is not part of it:
  \<^item> \<open>float_seconds s\<close> is \<open>timedelta(seconds=float(s))\<close>;
  \<^item> \<open>str_seconds t\<close> is \<open>str(t.total_seconds())\<close>;
  \<^item> \<open>fromstring\<close> is \<open>ET.fromstring\<close>;
  \<^item> \<open>toprettyxml root\<close> is
    \<open>minidom.parseString(ET.tostring(root)).toprettyxml(indent="   ")\<close>.
\<close>

record lib =
  float_seconds :: "string \<Rightarrow> exn + timedelta"
  str_seconds :: "timedelta \<Rightarrow> string"
  fromstring :: "string \<Rightarrow> exn + element"
  toprettyxml :: "element \<Rightarrow> exn + string"

section \<open>get_active_window_info\<close>

text \<open>
  The dict the sampler returns. The outcome of the five win32 calls in the \<open>try\<close> body
  is the argument: \<open>Inl msg\<close> when one of them raised an Exception \<open>e\<close> with
  \<open>str(e) = msg\<close>, \<open>Inr (p, process_name, title)\<close> otherwise.
\<close>

record info =
  error :: "string option"
  process_id :: int
  process_name :: string
  title :: string

definition get_active_window_info :: "string + (int \<times> string \<times> string) \<Rightarrow> info" where
  "get_active_window_info os =
     (case os of
        Inl e \<Rightarrow>
          \<lparr>error = Some e, process_id = - 1, process_name = ''unknown'', title = ''unknown''\<rparr>
      | Inr (p, name, t) \<Rightarrow>
          \<lparr>error = None, process_id = p, process_name = name, title = t\<rparr>)"

section \<open>TimeRecord\<close>

definition add_timedelta ::
  "string \<Rightarrow> string \<Rightarrow> timedelta \<Rightarrow> time_record \<Rightarrow> time_record \<times> exn option" where
  "add_timedelta application title_name delta self =
     (let self1 =
            AList.update application
              (case map_of self application of None \<Rightarrow> [] | Some ts \<Rightarrow> ts) self
      in case map_of self1 application of
           None \<Rightarrow> (self1, Some KeyError)
         | Some ts \<Rightarrow>
             (case td_add (case map_of ts title_name of None \<Rightarrow> delta | Some t \<Rightarrow> t) delta of
                Inl e \<Rightarrow> (self1, Some e)
              | Inr t \<Rightarrow> (AList.update application (AList.update title_name t ts) self1, None)))"

definition to_xml_root :: "lib \<Rightarrow> time_record \<Rightarrow> element" where
  "to_xml_root L self =
     Element ''TimeRecord'' [] None
       (map (\<lambda>(application, ts).
               Element ''Application'' [(''name'', application)] None
                 (map (\<lambda>(title_name, time).
                         Element ''Title'' [(''name'', title_name)]
                           (Some (str_seconds L time)) [])
                    ts))
          self)"

definition to_xml :: "lib \<Rightarrow> time_record \<Rightarrow> exn + string" where
  "to_xml L self = toprettyxml L (to_xml_root L self)"

fun from_xml_titles ::
  "lib \<Rightarrow> string \<Rightarrow> time_record \<Rightarrow> element list \<Rightarrow> exn + time_record" where
  "from_xml_titles L application record [] = Inr record"
| "from_xml_titles L application record (title_element # rest) =
     (case map_of (attrib title_element) ''name'' of
        None \<Rightarrow> Inl KeyError
      | Some title_name \<Rightarrow>
          (case etext title_element of
             None \<Rightarrow> Inl TypeError
           | Some s \<Rightarrow>
               (case float_seconds L s of
                  Inl e \<Rightarrow> Inl e
                | Inr time \<Rightarrow>
                    (case map_of record application of
                       None \<Rightarrow> Inl KeyError
                     | Some ts \<Rightarrow>
                         from_xml_titles L application
                           (AList.update application (AList.update title_name time ts) record)
                           rest))))"

fun from_xml_apps :: "lib \<Rightarrow> time_record \<Rightarrow> element list \<Rightarrow> exn + time_record" where
  "from_xml_apps L record [] = Inr record"
| "from_xml_apps L record (app_element # rest) =
     (case map_of (attrib app_element) ''name'' of
        None \<Rightarrow> Inl KeyError
      | Some application \<Rightarrow>
          (case from_xml_titles L application (AList.update application [] record)
                  (findall ''Title'' app_element) of
             Inl e \<Rightarrow> Inl e
           | Inr record' \<Rightarrow> from_xml_apps L record' rest))"

definition from_xml_root :: "lib \<Rightarrow> element \<Rightarrow> exn + time_record" where
  "from_xml_root L root = from_xml_apps L [] (findall ''Application'' root)"

definition from_xml :: "lib \<Rightarrow> string \<Rightarrow> exn + time_record" where
  "from_xml L xml =
     (case fromstring L xml of Inl e \<Rightarrow> Inl e | Inr root \<Rightarrow> from_xml_root L root)"

section \<open>TimeUseApp\<close>

subsection \<open>The record file\<close>

text \<open>
  The working directory: file name to contents. \<open>open(p, "r")\<close> of a missing file raises
  FileNotFoundError; \<open>open(p, "w")\<close> creates the file or truncates it to length zero;
  \<open>f.write(s)\<close> appends to what the open file holds.
\<close>

type_synonym files = "string \<rightharpoonup> string"

datatype fs_op = Open_w string | Write string string

fun apply_op :: "files \<Rightarrow> fs_op \<Rightarrow> files" where
  "apply_op fs (Open_w p) = fs(p \<mapsto> [])"
| "apply_op fs (Write p s) = (case fs p of None \<Rightarrow> fs | Some c \<Rightarrow> fs(p \<mapsto> c @ s))"

definition apply_ops :: "files \<Rightarrow> fs_op list \<Rightarrow> files" where
  "apply_ops fs ops = foldl apply_op fs ops"

definition load_record :: "lib \<Rightarrow> files \<Rightarrow> exn + time_record" where
  "load_record L fs =
     (case (case fs ''record.xml'' of
              None \<Rightarrow> Inl FileNotFoundError
            | Some contents \<Rightarrow> from_xml L contents) of
        Inl e \<Rightarrow> if e = FileNotFoundError then Inr [] else Inl e
      | Inr record \<Rightarrow> Inr record)"

text \<open>
  \<open>save_record\<close> as the file operations it performs, in order, and the exception it
  raises, if any: the file is opened (truncated) before \<open>record.to_xml()\<close> is evaluated.
\<close>

definition save_record :: "lib \<Rightarrow> time_record \<Rightarrow> fs_op list \<times> exn option" where
  "save_record L record =
     (case to_xml L record of
        Inl e \<Rightarrow> ([Open_w ''record.xml''], Some e)
      | Inr xml \<Rightarrow> ([Open_w ''record.xml'', Write ''record.xml'' xml], None))"

subsection \<open>The table\<close>

text \<open>
  One \<open>table.add_row\<close> call. \<open>App_row app total\<close> is the row with key \<open>app\<close> and cells
  \<open>os.path.basename(app)\<close>, \<open>""\<close>, \<open>total\<close>; \<open>Title_row app title time\<close> is the row
  with key \<open>f"{app}_{title}"\<close> and cells \<open>""\<close>, \<open>truncate_string(title)\<close>, \<open>time\<close>;
  \<open>Blank_row\<close> is \<open>table.add_row()\<close>.
\<close>

datatype row = App_row string timedelta | Title_row string string timedelta | Blank_row

definition truncate_string :: "string \<Rightarrow> string" where
  "truncate_string s = (if length s > 20 then take 20 s @ ''...'' else s)"

fun row_key :: "row \<Rightarrow> string option" where
  "row_key (App_row app app_total) = Some app"
| "row_key (Title_row app title_name time) = Some (app @ ''_'' @ title_name)"
| "row_key Blank_row = None"

text \<open>Lines 144 to 148: the order of the applications.\<close>

fun totals :: "time_record \<Rightarrow> exn + timedelta list" where
  "totals [] = Inr []"
| "totals ((app, ts) # data) =
     (case td_sum 0 (map snd ts) of
        Inl e \<Rightarrow> Inl e
      | Inr app_total \<Rightarrow> (case totals data of Inl e \<Rightarrow> Inl e | Inr rest \<Rightarrow> Inr (app_total # rest)))"

definition sort_data :: "bool option \<Rightarrow> bool option \<Rightarrow> time_record \<Rightarrow> exn + time_record" where
  "sort_data by_process by_time record =
     (let data = (case by_process of None \<Rightarrow> record | Some up \<Rightarrow> sorted_py fst up record)
      in case by_time of
           None \<Rightarrow> Inr data
         | Some up \<Rightarrow>
             (case totals data of
                Inl e \<Rightarrow> Inl e
              | Inr keys \<Rightarrow> Inr (map snd (sorted_py fst up (zip keys data)))))"

text \<open>Lines 156 to 160: the order of the titles of one application.\<close>

definition sort_titles :: "bool option \<Rightarrow> bool option \<Rightarrow> titles \<Rightarrow> titles" where
  "sort_titles by_process by_time ts =
     (let td = (case by_process of None \<Rightarrow> ts | Some up \<Rightarrow> sorted_py fst up ts)
      in case by_time of None \<Rightarrow> td | Some up \<Rightarrow> sorted_py snd up td)"

text \<open>
  \<open>table.add_row(..., key=k)\<close> raises DuplicateKey when the table has a row with the key
  \<open>k\<close> and appends the row otherwise; rows added without a key never clash.
\<close>

definition add_row :: "row list \<Rightarrow> row \<Rightarrow> exn + row list" where
  "add_row tbl r =
     (case row_key r of
        None \<Rightarrow> Inr (tbl @ [r])
      | Some k \<Rightarrow> if Some k \<in> set (map row_key tbl) then Inl DuplicateKey else Inr (tbl @ [r]))"

fun add_rows :: "row list \<Rightarrow> row list \<Rightarrow> row list \<times> exn option" where
  "add_rows tbl [] = (tbl, None)"
| "add_rows tbl (r # rs) =
     (case add_row tbl r of Inl e \<Rightarrow> (tbl, Some e) | Inr tbl' \<Rightarrow> add_rows tbl' rs)"

text \<open>
  Lines 149 to 166, from the table \<open>tbl\<close>: the table when the loop ends or when \<open>sum\<close>
  or \<open>add_row\<close> raises.
\<close>

fun table_rows ::
  "bool option \<Rightarrow> bool option \<Rightarrow> time_record \<Rightarrow> row list \<Rightarrow> row list \<times> exn option" where
  "table_rows by_process by_time [] tbl = (tbl, None)"
| "table_rows by_process by_time ((app, ts) # data) tbl =
     (case td_sum 0 (map snd ts) of
        Inl e \<Rightarrow> (tbl, Some e)
      | Inr app_total \<Rightarrow>
          (case add_rows tbl
                  (App_row app app_total
                     # map (\<lambda>(title_name, time). Title_row app title_name time)
                         (sort_titles by_process by_time ts)
                     @ [Blank_row]) of
             (tbl', Some e) \<Rightarrow> (tbl', Some e)
           | (tbl', None) \<Rightarrow> table_rows by_process by_time data tbl'))"

subsection \<open>The application state and its handlers\<close>

record time_use_app =
  record_dict :: time_record
  paused :: bool
  sort_by_process_up :: "bool option"
  sort_by_time_up :: "bool option"
  table :: "row list"
  disk :: files
  io_log :: "fs_op list"

text \<open>The class attributes, over a working directory \<open>fs\<close>; no file operation yet.\<close>

definition TimeUseApp :: "files \<Rightarrow> time_use_app" where
  "TimeUseApp fs =
     \<lparr>record_dict = [], paused = False, sort_by_process_up = Some True,
      sort_by_time_up = None, table = [], disk = fs, io_log = []\<rparr>"

definition refresh_table :: "time_use_app \<Rightarrow> time_use_app \<times> exn option" where
  "refresh_table self =
     (case sort_data (sort_by_process_up self) (sort_by_time_up self) (record_dict self) of
        Inl e \<Rightarrow> (self\<lparr>table := []\<rparr>, Some e)
      | Inr data \<Rightarrow>
          (let (rows, err) =
                 table_rows (sort_by_process_up self) (sort_by_time_up self) data []
           in (self\<lparr>table := rows\<rparr>, err)))"

definition on_mount :: "lib \<Rightarrow> time_use_app \<Rightarrow> time_use_app \<times> exn option" where
  "on_mount L self =
     (case load_record L (disk self) of
        Inl e \<Rightarrow> (self, Some e)
      | Inr record \<Rightarrow> refresh_table (self\<lparr>record_dict := record\<rparr>))"

definition action_switch_paused :: "time_use_app \<Rightarrow> time_use_app" where
  "action_switch_paused self = self\<lparr>paused := \<not> paused self\<rparr>"

definition action_sort_by_process :: "time_use_app \<Rightarrow> time_use_app \<times> exn option" where
  "action_sort_by_process self =
     refresh_table
       (self\<lparr>sort_by_time_up := None,
             sort_by_process_up :=
               (case sort_by_process_up self of None \<Rightarrow> Some True | Some up \<Rightarrow> Some (\<not> up))\<rparr>)"

definition action_sort_by_time :: "time_use_app \<Rightarrow> time_use_app \<times> exn option" where
  "action_sort_by_time self =
     refresh_table
       (self\<lparr>sort_by_process_up := None,
             sort_by_time_up :=
               (case sort_by_time_up self of None \<Rightarrow> Some True | Some up \<Rightarrow> Some (\<not> up))\<rparr>)"

text \<open>
  The subscriptions of \<open>on_mount\<close>. Each is its own timer behind the filter
  \<open>not self.paused\<close>: the one-second timer that samples the window, and three ten-second
  timers, one saving the record and two refreshing the table.
\<close>

definition sample_tick ::
  "time_use_app \<Rightarrow> string + (int \<times> string \<times> string) \<Rightarrow> time_use_app \<times> exn option" where
  "sample_tick self os =
     (if paused self then (self, None)
      else
        (let x = get_active_window_info os
         in if error x \<noteq> None then (self, None)
            else
              (let (record, err) =
                     add_timedelta (process_name x) (title x) 1000000 (record_dict self)
               in (self\<lparr>record_dict := record\<rparr>, err))))"

definition save_tick :: "lib \<Rightarrow> time_use_app \<Rightarrow> time_use_app \<times> exn option" where
  "save_tick L self =
     (if paused self then (self, None)
      else
        (let (ops, err) = save_record L (record_dict self)
         in (self\<lparr>disk := apply_ops (disk self) ops, io_log := io_log self @ ops\<rparr>, err)))"

definition refresh_tick :: "time_use_app \<Rightarrow> time_use_app \<times> exn option" where
  "refresh_tick self = (if paused self then (self, None) else refresh_table self)"

datatype event =
    Sample_tick "string + (int \<times> string \<times> string)"
  | Save_tick
  | Refresh_tick
  | Switch_paused
  | Sort_by_process
  | Sort_by_time

fun is_tick :: "event \<Rightarrow> bool" where
  "is_tick (Sample_tick os) = True"
| "is_tick Save_tick = True"
| "is_tick Refresh_tick = True"
| "is_tick Switch_paused = False"
| "is_tick Sort_by_process = False"
| "is_tick Sort_by_time = False"

fun step :: "lib \<Rightarrow> time_use_app \<Rightarrow> event \<Rightarrow> time_use_app \<times> exn option" where
  "step L self (Sample_tick os) = sample_tick self os"
| "step L self Save_tick = save_tick L self"
| "step L self Refresh_tick = refresh_tick self"
| "step L self Switch_paused = (action_switch_paused self, None)"
| "step L self Sort_by_process = action_sort_by_process self"
| "step L self Sort_by_time = action_sort_by_time self"

text \<open>The events are handled one after the other, up to the first exception.\<close>

fun run :: "lib \<Rightarrow> time_use_app \<Rightarrow> event list \<Rightarrow> time_use_app \<times> exn option" where
  "run L self [] = (self, None)"
| "run L self (ev # evs) =
     (case step L self ev of
        (self', None) \<Rightarrow> run L self' evs
      | (self', Some e) \<Rightarrow> (self', Some e))"

section \<open>Sample values of the library functions\<close>

text \<open>
  The library functions tabulated at the arguments that the concrete evaluations below
  reach, with Python's results there; the last branch of each table is never reached by
  them. \<open>doc_foo\<close>, \<open>doc_bad\<close>, \<open>doc_dup\<close> and \<open>doc_two\<close> are minified documents and
  \<open>root_foo\<close>, \<open>root_bad\<close>, \<open>root_dup\<close> and \<open>root_two\<close> the trees \<open>ET.fromstring\<close>
  returns for them; \<open>record_two\<close> is the record \<open>doc_two\<close> holds, \<open>pretty_two\<close> what
  \<open>to_xml\<close> returns for it and \<open>root_pretty_two\<close> the tree \<open>ET.fromstring\<close> returns for
  \<open>pretty_two\<close>, with the indentation as the text of the root and of the Application
  elements. \<open>record_ctl\<close> has a title that is the one character U+0001, and \<open>root_ctl\<close> is
  the tree \<open>to_xml\<close> builds for it: \<open>ET.tostring\<close> writes the character as it is and
  \<open>minidom.parseString\<close> raises ExpatError on it.
\<close>

definition doc_foo :: string where
  \<open>doc_foo = ''<Foo><Application name="a"><Title name="t">5.0</Title></Application></Foo>''\<close>

definition root_foo :: element where
  "root_foo =
     Element ''Foo'' [] None
       [Element ''Application'' [(''name'', ''a'')] None
          [Element ''Title'' [(''name'', ''t'')] (Some ''5.0'') []]]"

definition doc_bad :: string where
  \<open>doc_bad =
     ''<TimeRecord><Application name="a"><Title name="t">soon</Title></Application></TimeRecord>''\<close>

definition root_bad :: element where
  "root_bad =
     Element ''TimeRecord'' [] None
       [Element ''Application'' [(''name'', ''a'')] None
          [Element ''Title'' [(''name'', ''t'')] (Some ''soon'') []]]"

definition doc_dup :: string where
  \<open>doc_dup =
     ''<TimeRecord><Application name="a"><Title name="t">5.0</Title><Title name="u">2.0</Title></Application><Application name="a"><Title name="u">5.0</Title><Title name="v">2.0</Title></Application></TimeRecord>''\<close>

definition app_dup_first :: element where
  "app_dup_first =
     Element ''Application'' [(''name'', ''a'')] None
       [Element ''Title'' [(''name'', ''t'')] (Some ''5.0'') [],
        Element ''Title'' [(''name'', ''u'')] (Some ''2.0'') []]"

definition app_dup_last :: element where
  "app_dup_last =
     Element ''Application'' [(''name'', ''a'')] None
       [Element ''Title'' [(''name'', ''u'')] (Some ''5.0'') [],
        Element ''Title'' [(''name'', ''v'')] (Some ''2.0'') []]"

definition root_dup :: element where
  "root_dup = Element ''TimeRecord'' [] None [app_dup_first, app_dup_last]"

definition doc_two :: string where
  \<open>doc_two =
     ''<TimeRecord><Application name="a"><Title name="x">5.0</Title><Title name="y">5.0</Title></Application><Application name="b"><Title name="z">5.0</Title></Application></TimeRecord>''\<close>

definition root_two :: element where
  "root_two =
     Element ''TimeRecord'' [] None
       [Element ''Application'' [(''name'', ''a'')] None
          [Element ''Title'' [(''name'', ''x'')] (Some ''5.0'') [],
           Element ''Title'' [(''name'', ''y'')] (Some ''5.0'') []],
        Element ''Application'' [(''name'', ''b'')] None
          [Element ''Title'' [(''name'', ''z'')] (Some ''5.0'') []]]"

definition pretty_two :: string where
  \<open>pretty_two =
     ''<?xml version="1.0" ?>\<newline><TimeRecord>\<newline>   <Application name="a">\<newline>      <Title name="x">5.0</Title>\<newline>      <Title name="y">5.0</Title>\<newline>   </Application>\<newline>   <Application name="b">\<newline>      <Title name="z">5.0</Title>\<newline>   </Application>\<newline></TimeRecord>\<newline>''\<close>

definition root_pretty_two :: element where
  \<open>root_pretty_two =
     Element ''TimeRecord'' [] (Some ''\<newline>   '')
       [Element ''Application'' [(''name'', ''a'')] (Some ''\<newline>      '')
          [Element ''Title'' [(''name'', ''x'')] (Some ''5.0'') [],
           Element ''Title'' [(''name'', ''y'')] (Some ''5.0'') []],
        Element ''Application'' [(''name'', ''b'')] (Some ''\<newline>      '')
          [Element ''Title'' [(''name'', ''z'')] (Some ''5.0'') []]]\<close>


definition root_ctl :: element where
  "root_ctl =
     Element ''TimeRecord'' [] None
       [Element ''Application'' [(''name'', ''a'')] None
          [Element ''Title'' [(''name'', [CHR 0x01])] (Some ''2.0'') []]]"

definition record_two :: time_record where
  "record_two =
     [(''a'', [(''x'', 5000000), (''y'', 5000000)]), (''b'', [(''z'', 5000000)])]"

definition example_lib :: lib where
  "example_lib =
     \<lparr>float_seconds =
        (\<lambda>s. if s = ''5.0'' then Inr 5000000
              else if s = ''2.0'' then Inr 2000000
              else Inl ValueError),
      str_seconds =
        (\<lambda>t. if t = 5000000 then ''5.0'' else if t = 2000000 then ''2.0'' else ''0.0''),
      fromstring =
        (\<lambda>s. if s = doc_foo then Inr root_foo
              else if s = doc_bad then Inr root_bad
              else if s = doc_dup then Inr root_dup
              else if s = doc_two then Inr root_two
              else if s = pretty_two then Inr root_pretty_two
              else Inl ParseError),
      toprettyxml =
        (\<lambda>e. if e = root_two then Inr pretty_two
              else if e = root_ctl then Inl ExpatError
              else Inl ExpatError)\<rparr>"

section \<open>What from_xml accepts\<close>

text \<open>
  The titles dict that the inner loop of \<open>from_xml\<close> builds from the Title elements of
  one Application element, starting from \<open>ts\<close>.
\<close>

fun parse_titles :: "lib \<Rightarrow> titles \<Rightarrow> element list \<Rightarrow> exn + titles" where
  "parse_titles L ts [] = Inr ts"
| "parse_titles L ts (title_element # rest) =
     (case map_of (attrib title_element) ''name'' of
        None \<Rightarrow> Inl KeyError
      | Some title_name \<Rightarrow>
          (case etext title_element of
             None \<Rightarrow> Inl TypeError
           | Some s \<Rightarrow>
               (case float_seconds L s of
                  Inl e \<Rightarrow> Inl e
                | Inr time \<Rightarrow> parse_titles L (AList.update title_name time ts) rest)))"

text \<open>
  A Title element that the inner loop reads without raising, and an Application element
  that the outer loop reads without raising.
\<close>

definition title_ok :: "lib \<Rightarrow> element \<Rightarrow> bool" where
  "title_ok L e =
     (map_of (attrib e) ''name'' \<noteq> None \<and>
      (case etext e of None \<Rightarrow> False | Some s \<Rightarrow> \<not> isl (float_seconds L s)))"

definition app_ok :: "lib \<Rightarrow> element \<Rightarrow> bool" where
  "app_ok L e =
     (map_of (attrib e) ''name'' \<noteq> None \<and> list_all (title_ok L) (findall ''Title'' e))"

text \<open>The element \<open>to_xml\<close> builds for one title, and for one application.\<close>

definition title_element :: "lib \<Rightarrow> string \<times> timedelta \<Rightarrow> element" where
  "title_element L = (\<lambda>(title_name, time).
     Element ''Title'' [(''name'', title_name)] (Some (str_seconds L time)) [])"

definition app_element :: "lib \<Rightarrow> string \<times> titles \<Rightarrow> element" where
  "app_element L = (\<lambda>(application, ts).
     Element ''Application'' [(''name'', application)] None (map (title_element L) ts))"

text \<open>
  The duration the text of a Title element stands for, and the duration that the last
  Title child of an Application element with the name \<open>t\<close> stands for; None when the
  element has no Title child of that name.
\<close>

definition title_time :: "lib \<Rightarrow> element \<Rightarrow> timedelta option" where
  "title_time L te =
     (case etext te of
        None \<Rightarrow> None
      | Some s \<Rightarrow> (case float_seconds L s of Inl e \<Rightarrow> None | Inr d \<Rightarrow> Some d))"

definition titles_named :: "string \<Rightarrow> element list \<Rightarrow> element list" where
  "titles_named t tes = filter (\<lambda>te. map_of (attrib te) ''name'' = Some t) tes"

definition last_title_time :: "lib \<Rightarrow> element \<Rightarrow> string \<Rightarrow> timedelta option" where
  "last_title_time L ae t =
     (case titles_named t (findall ''Title'' ae) of
        [] \<Rightarrow> None
      | te # tes \<Rightarrow> title_time L (last (te # tes)))"





section \<open>Reading the table and the files\<close>

text \<open>
  The application paths of the header rows of a table, top to bottom, and the titles of
  the title rows of one application, top to bottom.
\<close>

fun shown_apps :: "row list \<Rightarrow> string list" where
  "shown_apps [] = []"
| "shown_apps (App_row app app_total # rows) = app # shown_apps rows"
| "shown_apps (Title_row app title_name time # rows) = shown_apps rows"
| "shown_apps (Blank_row # rows) = shown_apps rows"

fun shown_titles :: "string \<Rightarrow> row list \<Rightarrow> string list" where
  "shown_titles a [] = []"
| "shown_titles a (App_row app app_total # rows) = shown_titles a rows"
| "shown_titles a (Title_row app title_name time # rows) =
     (if app = a then title_name # shown_titles a rows else shown_titles a rows)"
| "shown_titles a (Blank_row # rows) = shown_titles a rows"

text \<open>
  The files left behind when the process ends after the first \<open>k\<close> file operations of
  \<open>save_record\<close>.
\<close>

definition save_interrupted :: "lib \<Rightarrow> time_record \<Rightarrow> nat \<Rightarrow> files \<Rightarrow> files" where
  "save_interrupted L rc k fs = apply_ops fs (take k (fst (save_record L rc)))"

text \<open>The duration a record holds for a pair, if any.\<close>

definition recorded :: "time_record \<Rightarrow> string \<Rightarrow> string \<Rightarrow> timedelta option" where
  "recorded rc app title_name =
     (case map_of rc app of None \<Rightarrow> None | Some ts \<Rightarrow> map_of ts title_name)"

section \<open>Accrual\<close>

text \<open>
  C1. On a ledger with no entry for the pair, one accrual of one second records two
  seconds: the default of the \<open>get\<close> is the delta itself, not zero, so the first tick of
  a pair counts twice.
\<close>

theorem add_timedelta_first_tick:
  "add_timedelta ''/usr/bin/editor'' ''draft.txt'' 1000000 []
     = ([(''/usr/bin/editor'', [(''draft.txt'', 2000000)])], None)"
  by (simp add: add_timedelta_def td_add_def td_min_def td_max_def)

lemma add_timedelta_absent:
  assumes "recorded rc app tn = None" and "td_min \<le> 2 * d" and "2 * d \<le> td_max"
  shows "\<exists>rc'. add_timedelta app tn d rc = (rc', None) \<and> recorded rc' app tn = Some (2 * d)"
  using assms
  by (auto simp: add_timedelta_def recorded_def td_add_def Let_def update_conv'
      split: option.splits)

lemma add_timedelta_present:
  assumes "recorded rc app tn = Some v" and "td_min \<le> v + d" and "v + d \<le> td_max"
  shows "\<exists>rc'. add_timedelta app tn d rc = (rc', None) \<and> recorded rc' app tn = Some (v + d)"
  using assms
  by (auto simp: add_timedelta_def recorded_def td_add_def Let_def update_conv'
      split: option.splits)

lemma sample_tick_present:
  assumes "\<not> paused self" and "recorded (record_dict self) app tn = Some v"
    and "td_min \<le> v + 1000000" and "v + 1000000 \<le> td_max"
  shows "\<exists>self'. step L self (Sample_tick (Inr (p, app, tn))) = (self', None) \<and>
           \<not> paused self' \<and> recorded (record_dict self') app tn = Some (v + 1000000)"
  using assms(1) add_timedelta_present [OF assms(2,3,4)]
  by (auto simp: sample_tick_def get_active_window_info_def)

lemma sample_ticks_present:
  assumes "\<not> paused self" and "recorded (record_dict self) app tn = Some v"
    and "0 \<le> v" and "v + int n * 1000000 \<le> td_max"
  shows "\<exists>self'. run L self (replicate n (Sample_tick (Inr (p, app, tn)))) = (self', None) \<and>
           recorded (record_dict self') app tn = Some (v + int n * 1000000)"
  using assms
proof (induction n arbitrary: self v)
  case 0
  then show ?case by simp
next
  case (Suc n)
  have lo: "td_min \<le> v + 1000000" using Suc.prems(3) by (simp add: td_min_def)
  have hi: "v + 1000000 \<le> td_max" using Suc.prems(4) by simp
  obtain s1 where s1: "step L self (Sample_tick (Inr (p, app, tn))) = (s1, None)"
    and np: "\<not> paused s1"
    and rec: "recorded (record_dict s1) app tn = Some (v + 1000000)"
    using sample_tick_present [OF Suc.prems(1,2) lo hi] by blast
  have "\<exists>self'. run L s1 (replicate n (Sample_tick (Inr (p, app, tn)))) = (self', None) \<and>
           recorded (record_dict self') app tn = Some (v + 1000000 + int n * 1000000)"
    using Suc.prems(3,4) by (intro Suc.IH [OF np rec]) simp_all
  then show ?case using s1 by (simp add: algebra_simps)
qed

text \<open>
  In general: a pair with no entry holds \<open>n + 1\<close> seconds after \<open>n \<ge> 1\<close> successful
  sample ticks that all matched it.
\<close>

lemma sample_ticks_first_counts_twice:
  assumes "\<not> paused self" and "recorded (record_dict self) app tn = None"
    and "(int n + 2) * 1000000 \<le> td_max"
  shows "\<exists>self'. run L self (replicate (Suc n) (Sample_tick (Inr (p, app, tn)))) = (self', None) \<and>
           recorded (record_dict self') app tn = Some ((int (Suc n) + 1) * 1000000)"
proof -
  obtain rc' where a: "add_timedelta app tn 1000000 (record_dict self) = (rc', None)"
    and r: "recorded rc' app tn = Some 2000000"
    using add_timedelta_absent [OF assms(2), of 1000000]
    by (auto simp: td_min_def td_max_def)
  let ?s1 = "self\<lparr>record_dict := rc'\<rparr>"
  have s1: "step L self (Sample_tick (Inr (p, app, tn))) = (?s1, None)"
    using assms(1) a by (simp add: sample_tick_def get_active_window_info_def)
  have "\<exists>self'. run L ?s1 (replicate n (Sample_tick (Inr (p, app, tn)))) = (self', None) \<and>
           recorded (record_dict self') app tn = Some (2000000 + int n * 1000000)"
    using assms(1,3) r by (intro sample_ticks_present) (simp_all add: algebra_simps)
  then show ?thesis using s1 by (simp add: algebra_simps)
qed

section \<open>Pause\<close>

lemma step_paused_tick:
  "paused self \<Longrightarrow> is_tick ev \<Longrightarrow> step L self ev = (self, None)"
  by (cases ev) (simp_all add: sample_tick_def save_tick_def refresh_tick_def)

lemma run_paused_ticks:
  "paused self \<Longrightarrow> \<forall>ev\<in>set ticks. is_tick ev \<Longrightarrow> run L self ticks = (self, None)"
  by (induction ticks) (simp_all add: step_paused_tick)

lemma run_append:
  "run L self (evs @ evs') =
     (case run L self evs of
        (self', None) \<Rightarrow> run L self' evs'
      | (self', Some e) \<Rightarrow> (self', Some e))"
  by (induction evs arbitrary: self) (simp_all split: prod.splits option.splits)

text \<open>
  C5. While \<open>paused\<close> holds, any sequence of sample, save and refresh ticks leaves the
  whole state as it is (the record, the files, the log of file operations, the table)
  and raises nothing; and whatever happens after the next toggle happens as if those
  ticks had never fired: nothing is queued.
\<close>

theorem paused_ticks_suppressed:
  assumes "paused self" and "\<forall>ev\<in>set ticks. is_tick ev"
  shows "run L self ticks = (self, None) \<and>
         run L self (ticks @ Switch_paused # evs) = run L self (Switch_paused # evs)"
  using assms by (simp add: run_append run_paused_ticks)

theorem paused_ticks_suppressed_witness:
  "run example_lib (TimeUseApp Map.empty\<lparr>paused := True\<rparr>)
     [Sample_tick (Inr (1, ''a'', ''t'')), Save_tick, Refresh_tick, Sample_tick (Inl ''e'')]
     = (TimeUseApp Map.empty\<lparr>paused := True\<rparr>, None) \<and>
   run example_lib (TimeUseApp Map.empty\<lparr>paused := True\<rparr>)
     ([Sample_tick (Inr (1, ''a'', ''t'')), Save_tick, Refresh_tick, Sample_tick (Inl ''e'')]
        @ [Switch_paused, Sample_tick (Inr (1, ''a'', ''t''))])
     = (TimeUseApp Map.empty\<lparr>record_dict := [(''a'', [(''t'', 2000000)])]\<rparr>, None)"
proof -
  let ?s = "TimeUseApp Map.empty\<lparr>paused := True\<rparr>"
  let ?ticks =
    "[Sample_tick (Inr (1, ''a'', ''t'')), Save_tick, Refresh_tick, Sample_tick (Inl ''e'')]"
  have p: "paused ?s" by simp
  have t: "\<forall>ev\<in>set ?ticks. is_tick ev" by simp
  have r: "run example_lib ?s (Switch_paused # [Sample_tick (Inr (1, ''a'', ''t''))])
             = (TimeUseApp Map.empty\<lparr>record_dict := [(''a'', [(''t'', 2000000)])]\<rparr>, None)"
    by (simp add: TimeUseApp_def action_switch_paused_def sample_tick_def
        get_active_window_info_def add_timedelta_def td_add_def td_min_def td_max_def)
  show ?thesis
    using paused_ticks_suppressed [OF p t, of example_lib "[Sample_tick (Inr (1, ''a'', ''t''))]"]
    unfolding r by simp
qed

section \<open>Sampler failures\<close>

text \<open>
  C8. When a call of the sampler's \<open>try\<close> body raises, the sampler returns the dict with
  the key \<open>error\<close> (and the placeholders -1, unknown, unknown) instead of raising, and
  the sample tick that received it leaves the state, the record included, unchanged and
  raises nothing.
\<close>

theorem sampler_failure_skips_accrual:
  "get_active_window_info (Inl msg) =
     \<lparr>error = Some msg, process_id = - 1, process_name = ''unknown'', title = ''unknown''\<rparr> \<and>
   step L self (Sample_tick (Inl msg)) = (self, None)"
  by (simp add: get_active_window_info_def sample_tick_def)

section \<open>Loading\<close>

text \<open>
  C9. When the working directory has no file record.xml, \<open>load_record\<close> returns the empty
  record and raises nothing.
\<close>

theorem load_record_absent:
  "fs ''record.xml'' = None \<Longrightarrow> load_record L fs = Inr []"
  by (simp add: load_record_def)

theorem load_record_absent_witness:
  "load_record example_lib Map.empty = Inr []"
  using load_record_absent [of Map.empty example_lib] by simp

section \<open>Sort modes\<close>

lemma refresh_table_keeps:
  "record_dict (fst (refresh_table self)) = record_dict self"
  "paused (fst (refresh_table self)) = paused self"
  "sort_by_process_up (fst (refresh_table self)) = sort_by_process_up self"
  "sort_by_time_up (fst (refresh_table self)) = sort_by_time_up self"
  "disk (fst (refresh_table self)) = disk self"
  "io_log (fst (refresh_table self)) = io_log self"
  by (simp_all add: refresh_table_def split: sum.splits prod.splits)

lemma step_exclusive:
  assumes "sort_by_process_up self = None \<or> sort_by_time_up self = None"
  shows "sort_by_process_up (fst (step L self ev)) = None \<or>
         sort_by_time_up (fst (step L self ev)) = None"
proof (cases ev)
  case (Sample_tick os)
  then show ?thesis
    using assms by (simp add: sample_tick_def Let_def split: prod.splits)
next
  case Save_tick
  then show ?thesis
    using assms by (simp add: save_tick_def Let_def split: prod.splits)
next
  case Refresh_tick
  then show ?thesis
    using assms by (simp add: refresh_tick_def refresh_table_keeps)
next
  case Switch_paused
  then show ?thesis
    using assms by (simp add: action_switch_paused_def)
next
  case Sort_by_process
  then show ?thesis
    by (simp add: action_sort_by_process_def refresh_table_keeps)
next
  case Sort_by_time
  then show ?thesis
    by (simp add: action_sort_by_time_def refresh_table_keeps)
qed

lemma run_exclusive:
  "sort_by_process_up self = None \<or> sort_by_time_up self = None \<Longrightarrow>
   sort_by_process_up (fst (run L self evs)) = None \<or>
   sort_by_time_up (fst (run L self evs)) = None"
proof (induction evs arbitrary: self)
  case Nil
  then show ?case by simp
next
  case (Cons ev evs)
  obtain self' r where st: "step L self ev = (self', r)"
    by (cases "step L self ev")
  have ex: "sort_by_process_up self' = None \<or> sort_by_time_up self' = None"
    using step_exclusive [OF Cons.prems, of L ev] st by simp
  show ?case
  proof (cases r)
    case None
    then show ?thesis using st Cons.IH [OF ex] by simp
  next
    case (Some e)
    then show ?thesis using st ex by simp
  qed
qed

lemma on_mount_exclusive:
  "sort_by_process_up (fst (on_mount L (TimeUseApp fs))) = Some True \<and>
   sort_by_time_up (fst (on_mount L (TimeUseApp fs))) = None"
  by (simp add: on_mount_def TimeUseApp_def refresh_table_keeps split: sum.splits)

text \<open>
  C7. The key of sort-by-name sets the time mode to None and leaves the name mode set;
  pressed while the name mode is set, it inverts the direction. The same holds with the
  two modes exchanged. In every state reached from startup by any sequence of events at
  most one of the two modes is set.
\<close>

theorem sort_modes_exclusive:
  "sort_by_time_up (fst (step L self Sort_by_process)) = None \<and>
   sort_by_process_up (fst (step L self Sort_by_process)) \<noteq> None \<and>
   (sort_by_process_up self = Some up \<longrightarrow>
      sort_by_process_up (fst (step L self Sort_by_process)) = Some (\<not> up)) \<and>
   sort_by_process_up (fst (step L self Sort_by_time)) = None \<and>
   sort_by_time_up (fst (step L self Sort_by_time)) \<noteq> None \<and>
   (sort_by_time_up self = Some up \<longrightarrow>
      sort_by_time_up (fst (step L self Sort_by_time)) = Some (\<not> up)) \<and>
   (sort_by_process_up (fst (run L (fst (on_mount L (TimeUseApp fs))) evs)) = None \<or>
    sort_by_time_up (fst (run L (fst (on_mount L (TimeUseApp fs))) evs)) = None)"
proof -
  have "sort_by_process_up (fst (run L (fst (on_mount L (TimeUseApp fs))) evs)) = None \<or>
        sort_by_time_up (fst (run L (fst (on_mount L (TimeUseApp fs))) evs)) = None"
    by (rule run_exclusive) (simp add: on_mount_exclusive)
  then show ?thesis
    by (auto simp add: action_sort_by_process_def action_sort_by_time_def refresh_table_keeps
        split: option.splits)
qed

theorem sort_modes_exclusive_witness:
  "sort_by_process_up (TimeUseApp Map.empty) = Some True \<and>
   sort_by_process_up (fst (step example_lib (TimeUseApp Map.empty) Sort_by_process))
     = Some False \<and>
   sort_by_time_up (fst (step example_lib (TimeUseApp Map.empty) Sort_by_time)) = Some True \<and>
   sort_by_time_up
     (fst (step example_lib (fst (step example_lib (TimeUseApp Map.empty) Sort_by_time))
             Sort_by_time))
     = Some False"
proof -
  let ?s = "TimeUseApp Map.empty"
  let ?s1 = "fst (step example_lib ?s Sort_by_time)"
  have a: "sort_by_process_up ?s = Some True"
    by (simp add: TimeUseApp_def)
  have b: "sort_by_time_up ?s1 = Some True"
    by (simp add: TimeUseApp_def action_sort_by_time_def refresh_table_keeps)
  show ?thesis
    using a b sort_modes_exclusive [of example_lib ?s True Map.empty "[]"]
      sort_modes_exclusive [of example_lib ?s1 True Map.empty "[]"]
    by simp
qed

section \<open>Deserialization\<close>

lemma from_xml_titles_parse:
  "map_of rc application = Some ts \<Longrightarrow>
   from_xml_titles L application rc tes =
     (case parse_titles L ts tes of
        Inl e \<Rightarrow> Inl e
      | Inr ts' \<Rightarrow> Inr (AList.update application ts' rc))"
proof (induction tes arbitrary: rc ts)
  case Nil
  then show ?case by (simp add: update_triv)
next
  case (Cons te tes)
  show ?case
  proof (cases "map_of (attrib te) ''name''")
    case None
    then show ?thesis by simp
  next
    case (Some title_name)
    note nm = this
    show ?thesis
    proof (cases "etext te")
      case None
      then show ?thesis using nm by simp
    next
      case (Some s)
      note tx = this
      show ?thesis
      proof (cases "float_seconds L s")
        case (Inl e)
        then show ?thesis using nm tx by simp
      next
        case (Inr time)
        have m: "map_of (AList.update application (AList.update title_name time ts) rc)
                   application = Some (AList.update title_name time ts)"
          by (simp add: update_conv')
        show ?thesis
          using nm tx Inr Cons.prems Cons.IH [OF m]
          by (simp split: sum.splits)
      qed
    qed
  qed
qed

lemma from_xml_apps_Cons:
  "map_of (attrib ae) ''name'' = Some n \<Longrightarrow>
   from_xml_apps L rc (ae # rest) =
     (case parse_titles L [] (findall ''Title'' ae) of
        Inl e \<Rightarrow> Inl e
      | Inr ts \<Rightarrow> from_xml_apps L (AList.update n ts rc) rest)"
  using from_xml_titles_parse [of "AList.update n [] rc" n "[]" L "findall ''Title'' ae"]
  by (simp add: update_conv' split: sum.splits)

lemma parse_titles_isl:
  "isl (parse_titles L ts tes) \<longleftrightarrow> \<not> list_all (title_ok L) tes"
  by (induction tes arbitrary: ts)
     (auto simp: title_ok_def split: option.splits sum.splits)

lemma from_xml_apps_isl:
  "isl (from_xml_apps L rc aes) \<longleftrightarrow> \<not> list_all (app_ok L) aes"
proof (induction aes arbitrary: rc)
  case Nil
  then show ?case by simp
next
  case (Cons ae aes)
  show ?case
  proof (cases "map_of (attrib ae) ''name''")
    case None
    then show ?thesis by (simp add: app_ok_def)
  next
    case (Some n)
    show ?thesis
      using from_xml_apps_Cons [OF Some, of L rc aes] Some Cons.IH
        parse_titles_isl [of L "[]" "findall ''Title'' ae"]
      by (auto simp: app_ok_def split: sum.splits)
  qed
qed

lemma from_xml_apps_append:
  "from_xml_apps L rc (aes @ aes') =
     (case from_xml_apps L rc aes of
        Inl e \<Rightarrow> Inl e
      | Inr rc' \<Rightarrow> from_xml_apps L rc' aes')"
proof (induction aes arbitrary: rc)
  case Nil
  then show ?case by simp
next
  case (Cons ae aes)
  show ?case
  proof (cases "map_of (attrib ae) ''name''")
    case None
    then show ?thesis by simp
  next
    case (Some n)
    show ?thesis
      using from_xml_apps_Cons [OF Some, of L rc] Cons.IH
      by (simp split: sum.splits)
  qed
qed

lemma from_xml_apps_other:
  "from_xml_apps L rc aes = Inr rc' \<Longrightarrow>
   \<forall>e\<in>set aes. map_of (attrib e) ''name'' \<noteq> Some n \<Longrightarrow>
   map_of rc' n = map_of rc n"
proof (induction aes arbitrary: rc)
  case Nil
  then show ?case by simp
next
  case (Cons ae aes)
  show ?case
  proof (cases "map_of (attrib ae) ''name''")
    case None
    then show ?thesis using Cons.prems by simp
  next
    case (Some m)
    have neq: "m \<noteq> n" using Cons.prems(2) Some by auto
    obtain ts where pt: "parse_titles L [] (findall ''Title'' ae) = Inr ts"
      and r: "from_xml_apps L (AList.update m ts rc) aes = Inr rc'"
      using Cons.prems(1) from_xml_apps_Cons [OF Some, of L rc aes]
      by (auto split: sum.splits)
    have "map_of rc' n = map_of (AList.update m ts rc) n"
      using Cons.IH [OF r] Cons.prems(2) by simp
    then show ?thesis using neq by (simp add: update_conv')
  qed
qed

text \<open>
  C3, as the code has it. \<open>from_xml\<close> raises exactly when an Application child of the
  root has no attribute name, or a Title child of such an Application has no attribute
  name, no text, or a text that the conversion to seconds rejects. The tag of the root is
  not looked at: the document is read as the document with the root TimeRecord and the
  same children is.
\<close>

theorem from_xml_malformed:
  assumes "fromstring L xml = Inr root"
  shows "(isl (from_xml L xml) \<longleftrightarrow> \<not> list_all (app_ok L) (findall ''Application'' root)) \<and>
         from_xml L xml = from_xml_root L (Element ''TimeRecord'' [] None (children root))"
  using assms by (simp add: from_xml_def from_xml_root_def from_xml_apps_isl findall_def)

theorem from_xml_malformed_witness:
  "fromstring example_lib doc_bad = Inr root_bad \<and>
   \<not> list_all (app_ok example_lib) (findall ''Application'' root_bad) \<and>
   isl (from_xml example_lib doc_bad) \<and>
   fromstring example_lib doc_foo = Inr root_foo \<and>
   from_xml example_lib doc_foo
     = from_xml_root example_lib (Element ''TimeRecord'' [] None (children root_foo))"
proof -
  have b: "fromstring example_lib doc_bad = Inr root_bad"
    by (simp add: example_lib_def doc_bad_def doc_foo_def)
  have f: "fromstring example_lib doc_foo = Inr root_foo"
    by (simp add: example_lib_def)
  have n: "\<not> list_all (app_ok example_lib) (findall ''Application'' root_bad)"
    by (simp add: app_ok_def title_ok_def findall_def root_bad_def example_lib_def)
  have i: "isl (from_xml example_lib doc_bad)"
    using from_xml_malformed [OF b] n by blast
  have e: "from_xml example_lib doc_foo
             = from_xml_root example_lib (Element ''TimeRecord'' [] None (children root_foo))"
    using from_xml_malformed [OF f] by blast
  show ?thesis
    using b f n i e by blast
qed

text \<open>
  A document whose root is Foo is deserialized to a ledger: the claim C3 as written
  fails on it.
\<close>

theorem from_xml_foreign_root:
  "from_xml example_lib doc_foo = Inr [(''a'', [(''t'', 5000000)])]"
proof -
  have "fromstring example_lib doc_foo = Inr root_foo"
    by (simp add: example_lib_def)
  then have "from_xml example_lib doc_foo = from_xml_root example_lib root_foo"
    by (simp add: from_xml_def)
  then show ?thesis
    by (simp add: from_xml_root_def findall_def root_foo_def example_lib_def)
qed

lemma parse_titles_lookup:
  "parse_titles L acc tes = Inr ts \<Longrightarrow>
   map_of ts t =
     (case titles_named t tes of
        [] \<Rightarrow> map_of acc t
      | te # rest \<Rightarrow> title_time L (last (te # rest)))"
proof (induction tes arbitrary: acc)
  case Nil
  then show ?case by (simp add: titles_named_def)
next
  case (Cons te tes)
  obtain t' s d where nm: "map_of (attrib te) ''name'' = Some t'"
    and tx: "etext te = Some s" and fl: "float_seconds L s = Inr d"
    and rest: "parse_titles L (AList.update t' d acc) tes = Inr ts"
    using Cons.prems by (auto split: option.splits sum.splits)
  have tt: "title_time L te = Some d"
    by (simp add: title_time_def tx fl)
  show ?case
    using Cons.IH [OF rest] nm tt
    by (auto simp: titles_named_def update_conv' split: list.splits)
qed

lemma parse_titles_distinct:
  "parse_titles L acc tes = Inr ts \<Longrightarrow> distinct (map fst acc) \<Longrightarrow> distinct (map fst ts)"
proof (induction tes arbitrary: acc)
  case Nil
  then show ?case by simp
next
  case (Cons te tes)
  obtain t' d where rest: "parse_titles L (AList.update t' d acc) tes = Inr ts"
    using Cons.prems(1) by (auto split: option.splits sum.splits)
  show ?case
    using Cons.IH [OF rest] Cons.prems(2) by (simp add: distinct_update)
qed

text \<open>
  C10. When \<open>from_xml\<close> returns a record and \<open>ae\<close> is the last Application element of
  the root with the name \<open>n\<close>, the record has an entry for \<open>n\<close>, and that entry is a
  dict that holds, for every title \<open>t\<close>, the duration of the last Title child of \<open>ae\<close>
  named \<open>t\<close>, and nothing for a title that \<open>ae\<close> has no Title child for: what the
  earlier elements of that name held is gone, neither merged nor summed. It is the
  entry that the document holding \<open>ae\<close> alone is deserialized to.
\<close>

theorem from_xml_last_application:
  assumes "fromstring L xml = Inr root"
    and "findall ''Application'' root = pre @ ae # post"
    and "map_of (attrib ae) ''name'' = Some n"
    and "\<forall>e\<in>set post. map_of (attrib e) ''name'' \<noteq> Some n"
    and "from_xml L xml = Inr rc"
  shows "\<exists>ts. map_of rc n = Some ts \<and> distinct (map fst ts) \<and>
              (\<forall>t. map_of ts t = last_title_time L ae t) \<and>
              from_xml_root L (Element ''TimeRecord'' [] None [ae]) = Inr [(n, ts)]"
proof -
  have tg: "tag ae = ''Application''"
  proof -
    have "ae \<in> set (findall ''Application'' root)" using assms(2) by simp
    then show ?thesis by (simp add: findall_def)
  qed
  have all: "from_xml_apps L [] (pre @ ae # post) = Inr rc"
    using assms(1,2,5) by (simp add: from_xml_def from_xml_root_def)
  then obtain r1 where r1: "from_xml_apps L [] pre = Inr r1"
    and r2: "from_xml_apps L r1 (ae # post) = Inr rc"
    by (auto simp: from_xml_apps_append split: sum.splits)
  obtain ts where pt: "parse_titles L [] (findall ''Title'' ae) = Inr ts"
    and r3: "from_xml_apps L (AList.update n ts r1) post = Inr rc"
    using r2 from_xml_apps_Cons [OF assms(3), of L r1 post]
    by (auto split: sum.splits)
  have "map_of rc n = map_of (AList.update n ts r1) n"
    using from_xml_apps_other [OF r3 assms(4)] .
  then have look: "map_of rc n = Some ts" by (simp add: update_conv')
  have single: "from_xml_root L (Element ''TimeRecord'' [] None [ae]) = Inr [(n, ts)]"
    using from_xml_apps_Cons [OF assms(3), of L "[]" "[]"] pt tg
    by (simp add: from_xml_root_def findall_def)
  have dist: "distinct (map fst ts)"
    using parse_titles_distinct [OF pt] by simp
  have times: "map_of ts t = last_title_time L ae t" for t
    using parse_titles_lookup [OF pt, of t]
    by (simp add: last_title_time_def split: list.splits)
  show ?thesis using look single dist times by blast
qed

theorem from_xml_last_application_witness:
  "from_xml example_lib doc_dup = Inr [(''a'', [(''u'', 5000000), (''v'', 2000000)])] \<and>
   last_title_time example_lib app_dup_last ''t'' = None \<and>
   last_title_time example_lib app_dup_last ''u'' = Some 5000000 \<and>
   last_title_time example_lib app_dup_last ''v'' = Some 2000000 \<and>
   (\<exists>ts. map_of [(''a'', [(''u'', 5000000 :: int), (''v'', 2000000)])] ''a'' = Some ts \<and>
         distinct (map fst ts) \<and>
         (\<forall>t. map_of ts t = last_title_time example_lib app_dup_last t) \<and>
         from_xml_root example_lib (Element ''TimeRecord'' [] None [app_dup_last])
           = Inr [(''a'', ts)])"
proof -
  have p: "fromstring example_lib doc_dup = Inr root_dup"
    by (simp add: example_lib_def doc_dup_def doc_foo_def doc_bad_def)
  have q: "from_xml example_lib doc_dup = from_xml_root example_lib root_dup"
    by (simp add: from_xml_def p)
  have r: "from_xml example_lib doc_dup = Inr [(''a'', [(''u'', 5000000), (''v'', 2000000)])]"
    unfolding q
    by (simp add: from_xml_root_def findall_def root_dup_def app_dup_first_def
        app_dup_last_def example_lib_def)
  have s: "findall ''Application'' root_dup = [app_dup_first] @ app_dup_last # []"
    by (simp add: findall_def root_dup_def app_dup_first_def app_dup_last_def)
  have n: "map_of (attrib app_dup_last) ''name'' = Some ''a''"
    by (simp add: app_dup_last_def)
  have e: "\<forall>e\<in>set ([] :: element list). map_of (attrib e) ''name'' \<noteq> Some ''a''"
    by simp
  have l: "last_title_time example_lib app_dup_last ''t'' = None"
    "last_title_time example_lib app_dup_last ''u'' = Some 5000000"
    "last_title_time example_lib app_dup_last ''v'' = Some 2000000"
    by (simp_all add: last_title_time_def titles_named_def title_time_def findall_def
        app_dup_last_def example_lib_def)
  show ?thesis
    using r l from_xml_last_application [OF p s n e r] by simp
qed

section \<open>Serialization\<close>






section \<open>The order of the table\<close>

lemma map_sort_key: "map f (sort_key f xs) = sort (map f xs)"
  by (rule properties_for_sort [symmetric]) simp_all

lemma sort_rev_eq: "sort (rev ys) = sort ys"
  by (rule properties_for_sort) simp_all

lemma map_sorted_py_reverse:
  "map f (sorted_py f True xs) = rev (sort (map f xs))"
proof -
  have "map f (rev (sort_key f (rev xs))) = rev (map f (sort_key f (rev xs)))"
    by (simp add: rev_map)
  also have "\<dots> = rev (sort (map f (rev xs)))"
    by (simp only: map_sort_key)
  also have "\<dots> = rev (sort (rev (map f xs)))"
    by (simp only: rev_map)
  also have "\<dots> = rev (sort (map f xs))"
    by (simp only: sort_rev_eq)
  finally show ?thesis by (simp add: sorted_py_def)
qed

lemma map_sorted_py_forward:
  "map f (sorted_py f False xs) = sort (map f xs)"
  by (simp add: sorted_py_def map_sort_key)

lemma set_sorted_py [simp]: "set (sorted_py f up xs) = set xs"
  by (simp add: sorted_py_def)

lemma shown_apps_append [simp]:
  "shown_apps (rows @ rows') = shown_apps rows @ shown_apps rows'"
  by (induction rows rule: shown_apps.induct) simp_all

lemma shown_titles_append [simp]:
  "shown_titles a (rows @ rows') = shown_titles a rows @ shown_titles a rows'"
  by (induction a rows rule: shown_titles.induct) simp_all

lemma shown_apps_title_rows [simp]:
  "shown_apps (map (\<lambda>(title_name, time). Title_row app title_name time) ts) = []"
  by (induction ts) auto

lemma shown_titles_title_rows:
  "shown_titles a (map (\<lambda>(title_name, time). Title_row app title_name time) ts) =
     (if app = a then map fst ts else [])"
  by (induction ts) auto

lemma add_rows_None:
  "add_rows tbl rs = (tbl', None) \<Longrightarrow> tbl' = tbl @ rs"
proof (induction rs arbitrary: tbl)
  case Nil
  then show ?case by simp
next
  case (Cons r rs)
  obtain tbl1 where a: "add_row tbl r = Inr tbl1" and b: "add_rows tbl1 rs = (tbl', None)"
    using Cons.prems by (auto split: sum.splits)
  have "tbl1 = tbl @ [r]"
    using a by (auto simp: add_row_def split: option.splits if_splits)
  then show ?case using Cons.IH [OF b] by simp
qed

lemma table_rows_Cons:
  assumes "table_rows p t ((app, ts) # data) tbl = (rows, None)"
  obtains app_total where
    "table_rows p t data
       (tbl @ App_row app app_total
          # map (\<lambda>(title_name, time). Title_row app title_name time) (sort_titles p t ts)
          @ [Blank_row]) = (rows, None)"
proof -
  obtain app_total tbl' where
    a: "add_rows tbl
          (App_row app app_total
             # map (\<lambda>(title_name, time). Title_row app title_name time) (sort_titles p t ts)
             @ [Blank_row]) = (tbl', None)"
    and r: "table_rows p t data tbl' = (rows, None)"
    using assms by (auto simp del: add_rows.simps split: sum.splits prod.splits option.splits)
  show ?thesis
    using that [of app_total] r add_rows_None [OF a] by simp
qed

lemma table_rows_shown_apps:
  "table_rows p t data tbl = (rows, None) \<Longrightarrow> shown_apps rows = shown_apps tbl @ map fst data"
proof (induction data arbitrary: tbl)
  case Nil
  then show ?case by simp
next
  case (Cons d data)
  obtain app ts where d: "d = (app, ts)" by (cases d)
  show ?case
    using Cons.prems unfolding d
    by (elim table_rows_Cons) (auto dest!: Cons.IH)
qed

lemma table_rows_shown_titles_none:
  "table_rows p t data tbl = (rows, None) \<Longrightarrow> map_of data a = None \<Longrightarrow>
   shown_titles a rows = shown_titles a tbl"
proof (induction data arbitrary: tbl)
  case Nil
  then show ?case by simp
next
  case (Cons d data)
  obtain app ts where d: "d = (app, ts)" by (cases d)
  have ne: "app \<noteq> a" and m: "map_of data a = None"
    using Cons.prems(2) unfolding d by (auto split: if_splits)
  show ?case
    using Cons.prems(1) unfolding d
    by (elim table_rows_Cons) (use ne m in \<open>auto dest!: Cons.IH simp: shown_titles_title_rows\<close>)
qed

lemma table_rows_shown_titles:
  "table_rows p t data tbl = (rows, None) \<Longrightarrow> distinct (map fst data) \<Longrightarrow>
   map_of data a = Some ts \<Longrightarrow>
   shown_titles a rows = shown_titles a tbl @ map fst (sort_titles p t ts)"
proof (induction data arbitrary: tbl)
  case Nil
  then show ?case by simp
next
  case (Cons d data)
  obtain app ts' where d: "d = (app, ts')" by (cases d)
  show ?case
  proof (cases "app = a")
    case True
    have m: "map_of data a = None"
      using Cons.prems(2) True unfolding d by (simp add: map_of_eq_None_iff)
    have eq: "ts' = ts" using Cons.prems(3) True unfolding d by simp
    show ?thesis
      using Cons.prems(1) unfolding d
      by (elim table_rows_Cons)
         (use True m eq in
           \<open>auto dest!: table_rows_shown_titles_none simp: shown_titles_title_rows\<close>)
  next
    case False
    have m: "map_of data a = Some ts" and dd: "distinct (map fst data)"
      using Cons.prems(2,3) False unfolding d by simp_all
    show ?thesis
      using Cons.prems(1) unfolding d
      by (elim table_rows_Cons)
         (use False in \<open>auto dest!: Cons.IH [OF _ dd m] simp: shown_titles_title_rows\<close>)
  qed
qed

lemma map_of_sorted_py:
  "distinct (map fst xs) \<Longrightarrow> map_of (sorted_py fst up xs) = map_of xs"
  by (rule map_of_inject_set [THEN iffD2])
     (simp_all add: sorted_py_def distinct_map)


lemma from_xml_apps_distinct:
  "from_xml_apps L rc aes = Inr rc' \<Longrightarrow> distinct (map fst rc) \<Longrightarrow> distinct (map fst rc')"
proof (induction aes arbitrary: rc)
  case Nil
  then show ?case by simp
next
  case (Cons ae aes)
  show ?case
  proof (cases "map_of (attrib ae) ''name''")
    case None
    then show ?thesis using Cons.prems by simp
  next
    case (Some n)
    obtain ts where r: "from_xml_apps L (AList.update n ts rc) aes = Inr rc'"
      using Cons.prems(1) from_xml_apps_Cons [OF Some, of L rc aes]
      by (auto split: sum.splits)
    show ?thesis
      using Cons.IH [OF r] Cons.prems(2) by (simp add: distinct_update)
  qed
qed

lemma from_xml_distinct:
  "from_xml L xml = Inr rc \<Longrightarrow> distinct (map fst rc)"
  by (auto simp: from_xml_def from_xml_root_def split: sum.splits
      dest: from_xml_apps_distinct)

lemma fromstring_two: "fromstring example_lib doc_two = Inr root_two"
  by (simp add: example_lib_def doc_two_def doc_foo_def doc_bad_def doc_dup_def)

lemma sort_data_startup:
  "sort_data (Some True) None rc = Inr (sorted_py fst True rc)"
  by (simp add: sort_data_def)

text \<open>
  C6, as the code has it. With the sort flags of startup (name mode \<open>True\<close>, time mode
  unset) the flag is passed as \<open>reverse\<close>, so a refresh that raises nothing lists the
  applications in descending order of their path strings and, the paths being the keys
  of a dict, the titles of each application in descending order of the title strings.
\<close>

theorem startup_order:
  assumes "sort_by_process_up self = sort_by_process_up (TimeUseApp fs)"
    and "sort_by_time_up self = sort_by_time_up (TimeUseApp fs)"
    and "refresh_table self = (self', None)"
  shows "shown_apps (table self') = rev (sort (map fst (record_dict self))) \<and>
         (distinct (map fst (record_dict self)) \<longrightarrow>
          map_of (record_dict self) a = Some ts \<longrightarrow>
          shown_titles a (table self') = rev (sort (map fst ts)))"
proof -
  have p: "sort_by_process_up self = Some True" and t: "sort_by_time_up self = None"
    using assms(1,2) by (simp_all add: TimeUseApp_def)
  let ?data = "sorted_py fst True (record_dict self)"
  obtain rows where rows: "table_rows (Some True) None ?data [] = (rows, None)"
    and tab: "table self' = rows"
    using assms(3) by (auto simp: refresh_table_def p t sort_data_startup split: prod.splits)
  have apps: "shown_apps rows = rev (sort (map fst (record_dict self)))"
    using table_rows_shown_apps [OF rows] by (simp add: map_sorted_py_reverse)
  have titles: "shown_titles a rows = rev (sort (map fst ts))"
    if d: "distinct (map fst (record_dict self))" and m: "map_of (record_dict self) a = Some ts"
  proof -
    have d': "distinct (map fst ?data)"
      by (simp add: map_sorted_py_reverse d)
    have m': "map_of ?data a = Some ts"
      using m by (simp add: map_of_sorted_py [OF d])
    have "shown_titles a rows = map fst (sort_titles (Some True) None ts)"
      using table_rows_shown_titles [OF rows d' m'] by simp
    then show ?thesis by (simp add: sort_titles_def map_sorted_py_reverse)
  qed
  show ?thesis using apps titles tab by simp
qed

lemma refresh_two:
  "refresh_table (TimeUseApp Map.empty\<lparr>record_dict := record_two\<rparr>) =
     (TimeUseApp Map.empty
        \<lparr>record_dict := record_two,
         table := [App_row ''b'' 5000000, Title_row ''b'' ''z'' 5000000, Blank_row,
                   App_row ''a'' 10000000, Title_row ''a'' ''y'' 5000000,
                   Title_row ''a'' ''x'' 5000000, Blank_row]\<rparr>, None)"
  by (simp add: refresh_table_def TimeUseApp_def record_two_def sort_data_def sorted_py_def
      sort_titles_def td_add_def td_min_def td_max_def add_row_def)

theorem startup_order_witness:
  "shown_apps (table (fst (refresh_table (TimeUseApp Map.empty\<lparr>record_dict := record_two\<rparr>))))
     = [''b'', ''a''] \<and>
   shown_titles ''a''
     (table (fst (refresh_table (TimeUseApp Map.empty\<lparr>record_dict := record_two\<rparr>))))
     = [''y'', ''x'']"
proof -
  let ?s = "TimeUseApp Map.empty\<lparr>record_dict := record_two\<rparr>"
  have p: "sort_by_process_up ?s = sort_by_process_up (TimeUseApp Map.empty)"
    and t: "sort_by_time_up ?s = sort_by_time_up (TimeUseApp Map.empty)"
    by simp_all
  have d: "distinct (map fst (record_dict ?s))"
    and m: "map_of (record_dict ?s) ''a'' = Some [(''x'', 5000000), (''y'', 5000000)]"
    by (simp_all add: record_two_def)
  have r: "shown_apps (table (fst (refresh_table ?s))) = rev (sort (map fst (record_dict ?s))) \<and>
           shown_titles ''a'' (table (fst (refresh_table ?s)))
             = rev (sort (map fst [(''x'', 5000000 :: int), (''y'', 5000000)]))"
    using startup_order [OF p t refresh_two, of "''a''" "[(''x'', 5000000), (''y'', 5000000)]"]
      d m
    by (simp only: refresh_two fst_conv)
  have k: "rev (sort (map fst (record_dict ?s))) = [''b'', ''a'']"
    "rev (sort (map fst [(''x'', 5000000 :: int), (''y'', 5000000)])) = [''y'', ''x'']"
    by (simp_all add: record_two_def)
  show ?thesis
    using r unfolding k .
qed

text \<open>
  At startup over a record file holding the applications a and b, the table starts with
  b: the order is not the ascending one of claim C6.
\<close>

theorem startup_order_descending:
  "table (fst (on_mount example_lib (TimeUseApp [''record.xml'' \<mapsto> doc_two]))) =
     [App_row ''b'' 5000000, Title_row ''b'' ''z'' 5000000, Blank_row,
      App_row ''a'' 10000000, Title_row ''a'' ''y'' 5000000,
      Title_row ''a'' ''x'' 5000000, Blank_row] \<and>
   \<not> sorted (shown_apps (table (fst (on_mount example_lib (TimeUseApp [''record.xml'' \<mapsto> doc_two])))))"
proof -
  have f: "from_xml example_lib doc_two = from_xml_root example_lib root_two"
    by (simp add: from_xml_def fromstring_two)
  have g: "from_xml_root example_lib root_two = Inr record_two"
    by (simp add: from_xml_root_def findall_def root_two_def example_lib_def record_two_def)
  have l: "load_record example_lib [''record.xml'' \<mapsto> doc_two] = Inr record_two"
    by (simp add: load_record_def f g)
  have "on_mount example_lib (TimeUseApp [''record.xml'' \<mapsto> doc_two]) =
          refresh_table (TimeUseApp [''record.xml'' \<mapsto> doc_two]\<lparr>record_dict := record_two\<rparr>)"
    by (simp add: on_mount_def TimeUseApp_def l)
  then show ?thesis
    by (simp add: refresh_table_def TimeUseApp_def record_two_def sort_data_def sorted_py_def
      sort_titles_def td_add_def td_min_def td_max_def add_row_def)
qed


text \<open>
  A record whose row keys clash: the application a_t and the title t of the application
  a both give the key a_t, and the refresh raises with the table half built.
\<close>

lemma refresh_table_duplicate_key:
  "refresh_table
     (TimeUseApp Map.empty
        \<lparr>record_dict := [(''a'', [(''t'', 5000000)]), (''a_t'', [(''x'', 5000000)])]\<rparr>) =
     (TimeUseApp Map.empty
        \<lparr>record_dict := [(''a'', [(''t'', 5000000)]), (''a_t'', [(''x'', 5000000)])],
         table := [App_row ''a_t'' 5000000, Title_row ''a_t'' ''x'' 5000000, Blank_row,
                   App_row ''a'' 5000000]\<rparr>,
      Some DuplicateKey)"
  by (simp add: refresh_table_def TimeUseApp_def sort_data_def sorted_py_def
      sort_titles_def td_add_def td_min_def td_max_def add_row_def)

section \<open>Saving\<close>

lemma to_xml_root_two: "to_xml_root example_lib record_two = root_two"
  by (simp add: to_xml_root_def record_two_def root_two_def example_lib_def)

lemma apply_ops_other:
  "\<forall>op\<in>set ops. op = Open_w q \<or> (\<exists>s. op = Write q s) \<Longrightarrow> p \<noteq> q \<Longrightarrow>
   apply_ops fs ops p = fs p"
  unfolding apply_ops_def
  by (induction ops arbitrary: fs) (auto split: option.splits)

text \<open>
  C4, as the code has it. \<open>save_record\<close> opens record.xml for writing, which truncates
  it, and then writes the serialized record into that same file; no other file is
  created or changed at any point (no temporary file and no rename). A process that ends
  after the open and before the write leaves record.xml empty.
\<close>

theorem save_record_in_place:
  "save_interrupted L rc 0 fs = fs \<and>
   save_interrupted L rc 1 fs = fs(''record.xml'' \<mapsto> []) \<and>
   (to_xml L rc = Inr xml \<longrightarrow>
      save_record L rc = ([Open_w ''record.xml'', Write ''record.xml'' xml], None) \<and>
      apply_ops fs (fst (save_record L rc)) = fs(''record.xml'' \<mapsto> xml)) \<and>
   (p \<noteq> ''record.xml'' \<longrightarrow> save_interrupted L rc k fs p = fs p)"
proof -
  have a: "save_interrupted L rc 0 fs = fs"
    by (simp add: save_interrupted_def apply_ops_def)
  have b: "save_interrupted L rc 1 fs = fs(''record.xml'' \<mapsto> [])"
    by (simp add: save_interrupted_def apply_ops_def save_record_def split: sum.splits)
  have c: "save_record L rc = ([Open_w ''record.xml'', Write ''record.xml'' xml], None) \<and>
           apply_ops fs (fst (save_record L rc)) = fs(''record.xml'' \<mapsto> xml)"
    if "to_xml L rc = Inr xml"
    using that by (simp add: save_record_def apply_ops_def)
  have d: "save_interrupted L rc k fs p = fs p" if "p \<noteq> ''record.xml''"
    unfolding save_interrupted_def
  proof (rule apply_ops_other [OF _ that])
    show "\<forall>op\<in>set (take k (fst (save_record L rc))).
            op = Open_w ''record.xml'' \<or> (\<exists>s. op = Write ''record.xml'' s)"
      by (auto simp: save_record_def split: sum.splits dest!: in_set_takeD)
  qed
  show ?thesis using a b c d by blast
qed

theorem save_record_in_place_witness:
  "to_xml example_lib record_two = Inr pretty_two \<and>
   save_record example_lib record_two
     = ([Open_w ''record.xml'', Write ''record.xml'' pretty_two], None) \<and>
   apply_ops [''record.xml'' \<mapsto> doc_two] (fst (save_record example_lib record_two))
     = [''record.xml'' \<mapsto> pretty_two] \<and>
   ''notes.txt'' \<noteq> ''record.xml'' \<and>
   save_interrupted example_lib record_two 2 [''record.xml'' \<mapsto> doc_two] ''notes.txt'' = None"
proof -
  have x: "to_xml example_lib record_two = Inr pretty_two"
    by (simp add: to_xml_def to_xml_root_two) (simp add: example_lib_def)
  have n: "''notes.txt'' \<noteq> ''record.xml''" by simp
  note th =
    save_record_in_place [of example_lib record_two "[''record.xml'' \<mapsto> doc_two]" pretty_two
      "''notes.txt''" 2]
  have s: "save_record example_lib record_two
             = ([Open_w ''record.xml'', Write ''record.xml'' pretty_two], None)"
    using th x by blast
  have "apply_ops [''record.xml'' \<mapsto> doc_two] (fst (save_record example_lib record_two))
          = [''record.xml'' \<mapsto> doc_two, ''record.xml'' \<mapsto> pretty_two]"
    using th x by blast
  then have a: "apply_ops [''record.xml'' \<mapsto> doc_two] (fst (save_record example_lib record_two))
                  = [''record.xml'' \<mapsto> pretty_two]"
    by (simp only: fun_upd_upd)
  have e: "[''record.xml'' \<mapsto> doc_two] ''notes.txt'' = None"
    by simp
  have "save_interrupted example_lib record_two 2 [''record.xml'' \<mapsto> doc_two] ''notes.txt''
          = [''record.xml'' \<mapsto> doc_two] ''notes.txt''"
    using th n by blast
  then have o: "save_interrupted example_lib record_two 2 [''record.xml'' \<mapsto> doc_two] ''notes.txt''
                  = None"
    by (simp only: e)
  show ?thesis
    using x s a n o by blast
qed

text \<open>
  The record file holds a ledger; the save of that ledger is interrupted after its first
  file operation: the only file left is empty, against claim C4.
\<close>

theorem save_record_interrupted:
  "save_interrupted example_lib record_two 1 [''record.xml'' \<mapsto> doc_two] = [''record.xml'' \<mapsto> []]"
proof -
  have x: "to_xml example_lib record_two = Inr pretty_two"
    by (simp add: to_xml_def to_xml_root_two) (simp add: example_lib_def)
  show ?thesis
    by (simp add: save_interrupted_def save_record_def x apply_ops_def)
qed

section \<open>The round trip\<close>












end
